theory Spec2Isabelle
  imports Main
begin

section \<open>The extraction orchestrator of main.py\<close>

text \<open>
  A shallow embedding of \<^verbatim>\<open>src/main.py\<close>: \<^verbatim>\<open>extract_single_file\<close>,
  \<^verbatim>\<open>extract_directory\<close> and \<^verbatim>\<open>main\<close>. Everything the three functions
  touch outside themselves is made explicit:
  \<^item> the file system and the extractor of \<^verbatim>\<open>text_extraction\<close> are an environment
    (record \<open>env\<close>) of functions that answer the calls the code makes;
  \<^item> the effects of a run (extractor calls, directories made, files written, log records,
    console lines) are collected in a record \<open>world\<close> that every function takes and
    returns;
  \<^item> an exception is the left summand of the result: the code has no
    \<^verbatim>\<open>try\<close>, so an exception of a callee always leaves the function at once.
\<close>

subsection \<open>Paths (pathlib)\<close>

text \<open>
  A path is the list of its segments. \<open>name\<close>, \<open>parent\<close>, \<open>suffix\<close>,
  \<open>with_suffix\<close> and \<open>relative_to\<close> follow CPython's \<^verbatim>\<open>pathlib.PurePath\<close>;
  \<open>str\<close> renders a relative path with the separator of POSIX.
\<close>

type_synonym path = "string list"

datatype exn =
    ValueError string
  | OSError string
  | Exception string

definition name :: "path \<Rightarrow> string" where
  "name p = (if p = [] then [] else last p)"

definition parent :: "path \<Rightarrow> path" where
  "parent p = butlast p"

fun rfind_from :: "char \<Rightarrow> string \<Rightarrow> int \<Rightarrow> int \<Rightarrow> int" where
  "rfind_from c [] i acc = acc"
| "rfind_from c (x # xs) i acc = rfind_from c xs (i + 1) (if x = c then i else acc)"

text \<open>\<^verbatim>\<open>s.rfind(c)\<close>: the highest index of \<open>c\<close> in \<open>s\<close>, or \<open>-1\<close>.\<close>

definition rfind :: "string \<Rightarrow> char \<Rightarrow> int" where
  "rfind s c = rfind_from c s 0 (- 1)"

text \<open>
  \<^verbatim>\<open>i = name.rfind('.'); return name[i:] if 0 < i < len(name) - 1 else ''\<close>
\<close>

definition suffix :: "path \<Rightarrow> string" where
  "suffix p =
     (let nm = name p; i = rfind nm (CHR ''.'')
      in if 0 < i \<and> i < int (length nm) - 1 then drop (nat i) nm else [])"

text \<open>
  \<^verbatim>\<open>i = name.rfind('.'); return name[:i] if 0 < i < len(name) - 1 else name\<close>
\<close>

definition stem :: "path \<Rightarrow> string" where
  "stem p =
     (let nm = name p; i = rfind nm (CHR ''.'')
      in if 0 < i \<and> i < int (length nm) - 1 then take (nat i) nm else nm)"

definition with_suffix :: "path \<Rightarrow> string \<Rightarrow> exn + path" where
  "with_suffix p sfx =
     (if CHR ''/'' \<in> set sfx then Inl (ValueError ''Invalid suffix'')
      else if (sfx \<noteq> [] \<and> hd sfx \<noteq> CHR ''.'') \<or> sfx = ''.''
        then Inl (ValueError ''Invalid suffix'')
      else
        let nm = name p in
        if nm = [] then Inl (ValueError ''has an empty name'')
        else
          let old_suffix = suffix p;
              nm' = (if old_suffix = [] then nm @ sfx
                     else take (length nm - length old_suffix) nm @ sfx)
          in Inr (butlast p @ [nm']))"

fun strip_prefix :: "path \<Rightarrow> path \<Rightarrow> path option" where
  "strip_prefix [] p = Some p"
| "strip_prefix (d # ds) [] = None"
| "strip_prefix (d # ds) (x # xs) = (if d = x then strip_prefix ds xs else None)"

definition relative_to :: "path \<Rightarrow> path \<Rightarrow> exn + path" where
  "relative_to p other =
     (case strip_prefix other p of
        None \<Rightarrow> Inl (ValueError ''is not in the subpath of'')
      | Some rel \<Rightarrow> Inr rel)"

fun join :: "string \<Rightarrow> string list \<Rightarrow> string" where
  "join sep [] = []"
| "join sep [x] = x"
| "join sep (x # y # ys) = x @ sep @ join sep (y # ys)"

definition str :: "path \<Rightarrow> string" where
  "str p = (if p = [] then ''.'' else join ''/'' p)"

text \<open>
  \<^verbatim>\<open>str.lower\<close> on the ASCII letters. The eight supported suffixes are ASCII and no
  character outside ASCII lowers to one of their letters, so membership of a lowered
  suffix in the set is decided by the ASCII letters alone.
\<close>

definition lower_char :: "char \<Rightarrow> char" where
  "lower_char c =
     (let n = (of_char c :: nat) in if 65 \<le> n \<and> n \<le> 90 then char_of (n + 32) else c)"

definition lower :: "string \<Rightarrow> string" where
  "lower s = map lower_char s"

subsection \<open>The result dictionary of the extractor\<close>

text \<open>
  \<^verbatim>\<open>extract_text\<close> returns a dictionary; the code reads its keys \<^verbatim>\<open>'text'\<close>,
  \<^verbatim>\<open>'char_count'\<close>, \<^verbatim>\<open>'word_count'\<close> and \<^verbatim>\<open>'error'\<close>. A key that is
  missing (or, for the two strings, bound to \<^verbatim>\<open>None\<close>) is \<open>None\<close>.
\<close>

record result =
  r_text :: "string option"
  r_char_count :: "int option"
  r_word_count :: "int option"
  r_error :: "string option"

text \<open>
  Python's truth value of \<^verbatim>\<open>result.get(key)\<close> for a string: false for a missing key,
  for \<^verbatim>\<open>None\<close> and for the empty string.
\<close>

definition truthy :: "string option \<Rightarrow> bool" where
  "truthy v = (case v of None \<Rightarrow> False | Some s \<Rightarrow> s \<noteq> [])"

text \<open>\<^verbatim>\<open>result.get(key, 0)\<close> for a count.\<close>

definition get0 :: "int option \<Rightarrow> int" where
  "get0 v = (case v of None \<Rightarrow> 0 | Some n \<Rightarrow> n)"

subsection \<open>Environment and effects\<close>

text \<open>
  \<open>scan E d\<close> lists, relative to \<open>d\<close>, the entries below directory \<open>d\<close> (files and
  directories alike) in the order in which \<^verbatim>\<open>d.rglob('*')\<close> yields them; that order
  is the one of \<^verbatim>\<open>os.scandir\<close>, which the program does not control.
  \<open>TextExtractor E root\<close> is the extractor built for a root; applied to a path it is
  \<^verbatim>\<open>extractor.extract_text(path)\<close>, which either raises or returns a dictionary.
  \<open>mkdir_raises\<close> and \<open>write_raises\<close> say whether
  \<^verbatim>\<open>mkdir(parents=True, exist_ok=True)\<close> and \<^verbatim>\<open>write_text\<close> raise at a path.
\<close>

record env =
  exists :: "path \<Rightarrow> bool"
  is_file :: "path \<Rightarrow> bool"
  is_dir :: "path \<Rightarrow> bool"
  scan :: "path \<Rightarrow> path list"
  TextExtractor :: "path \<Rightarrow> path \<Rightarrow> exn + result"
  mkdir_raises :: "path \<Rightarrow> exn option"
  write_raises :: "path \<Rightarrow> exn option"

datatype levelname = DEBUG | INFO | WARNING | ERROR

text \<open>The log messages of main.py, one constructor per format string.\<close>

datatype message =
    Extracting_text_from string
  | Extraction_failed string
  | Extracted_characters_words int int
  | Saved_extracted_text_to path
  | No_supported_files_found_in path
  | Found_supported_files nat
  | Processing nat nat string
  | Failed string
  | Extracted_chars int
  | Separator
  | Extraction_complete int int
  | Input_path_does_not_exist path
  | Invalid_input_path path

record world =
  calls :: "path list"
  dirs_made :: "path list"
  written :: "(path \<times> string) list"
  logged :: "(levelname \<times> message) list"
  printed :: "string list"
  root_level :: levelname

definition world0 :: world where
  "world0 = \<lparr>calls = [], dirs_made = [], written = [], logged = [], printed = [],
     root_level = INFO\<rparr>"

text \<open>
  The numeric levels of \<^verbatim>\<open>logging\<close>. The module's logger has no level of its own, so
  its effective level is the level of the root logger (\<open>root_level\<close>: \<^verbatim>\<open>INFO\<close> from
  \<^verbatim>\<open>basicConfig\<close>, changed by \<^verbatim>\<open>setLevel\<close> in \<^verbatim>\<open>main\<close>). A call
  \<^verbatim>\<open>logger.info\<close>, \<^verbatim>\<open>logger.warning\<close> or \<^verbatim>\<open>logger.error\<close> emits its record
  when the record's level is not below that level, and drops it otherwise; \<open>logged\<close>
  holds the records emitted.
\<close>

fun levelno :: "levelname \<Rightarrow> nat" where
  "levelno DEBUG = 10"
| "levelno INFO = 20"
| "levelno WARNING = 30"
| "levelno ERROR = 40"

definition logger :: "levelname \<Rightarrow> message \<Rightarrow> world \<Rightarrow> world" where
  "logger l m w =
     (if levelno (root_level w) \<le> levelno l then w\<lparr>logged := logged w @ [(l, m)]\<rparr> else w)"

text \<open>
  \<open>extract_text E root p\<close> is the call \<^verbatim>\<open>extractor.extract_text(p)\<close> on the
  extractor \<^verbatim>\<open>TextExtractor(data_lake_root=root)\<close> that line 26 builds for
  \<^verbatim>\<open>file_path.parent\<close> and line 50 for \<^verbatim>\<open>input_dir\<close>; the call is recorded.
\<close>

definition extract_text :: "env \<Rightarrow> path \<Rightarrow> path \<Rightarrow> world \<Rightarrow> (exn + result) \<times> world" where
  "extract_text E root p w = (TextExtractor E root p, w\<lparr>calls := calls w @ [p]\<rparr>)"

definition mkdir :: "env \<Rightarrow> path \<Rightarrow> world \<Rightarrow> (exn + unit) \<times> world" where
  "mkdir E d w =
     (case mkdir_raises E d of
        Some e \<Rightarrow> (Inl e, w)
      | None \<Rightarrow> (Inr (), w\<lparr>dirs_made := dirs_made w @ [d]\<rparr>))"

definition write_text :: "env \<Rightarrow> path \<Rightarrow> string \<Rightarrow> world \<Rightarrow> (exn + unit) \<times> world" where
  "write_text E p s w =
     (case write_raises E p of
        Some e \<Rightarrow> (Inl e, w)
      | None \<Rightarrow> (Inr (), w\<lparr>written := written w @ [(p, s)]\<rparr>))"

text \<open>\<^verbatim>\<open>input_dir.rglob('*')\<close>: full paths; the directory itself is never yielded.\<close>

definition rglob :: "env \<Rightarrow> path \<Rightarrow> path list" where
  "rglob E d = map (\<lambda>rel. d @ rel) (filter (\<lambda>rel. rel \<noteq> []) (scan E d))"

subsection \<open>extract_single_file\<close>

definition extract_single_file ::
  "env \<Rightarrow> path \<Rightarrow> path option \<Rightarrow> world \<Rightarrow> (exn + result) \<times> world" where
  "extract_single_file E file_path output_path w0 =
     (let w1 = logger INFO (Extracting_text_from (name file_path)) w0
      in case extract_text E (parent file_path) file_path w1 of
           (Inl e, w2) \<Rightarrow> (Inl e, w2)
         | (Inr result, w2) \<Rightarrow>
             if truthy (r_error result) then
               (Inr result, logger ERROR (Extraction_failed (the (r_error result))) w2)
             else
               let w3 = logger INFO
                     (Extracted_characters_words (get0 (r_char_count result))
                        (get0 (r_word_count result))) w2
               in (case output_path of
                     None \<Rightarrow> (Inr result, w3)
                   | Some out \<Rightarrow>
                       if truthy (r_text result) then
                         (case mkdir E (parent out) w3 of
                            (Inl e, w4) \<Rightarrow> (Inl e, w4)
                          | (Inr _, w4) \<Rightarrow>
                              (case write_text E out (the (r_text result)) w4 of
                                 (Inl e, w5) \<Rightarrow> (Inl e, w5)
                               | (Inr _, w5) \<Rightarrow>
                                   (Inr result, logger INFO (Saved_extracted_text_to out) w5)))
                       else (Inr result, w3)))"

subsection \<open>extract_directory\<close>

text \<open>
  The dictionary \<^verbatim>\<open>file_result\<close>, with its keys \<^verbatim>\<open>'file'\<close>,
  \<^verbatim>\<open>'success'\<close>, \<^verbatim>\<open>'chars'\<close>, \<^verbatim>\<open>'words'\<close> and \<^verbatim>\<open>'error'\<close>
  (\<open>None\<close> when the key is not set), and the dictionary \<^verbatim>\<open>results\<close>.
\<close>

record file_result =
  fr_file :: string
  fr_success :: bool
  fr_chars :: int
  fr_words :: int
  fr_error :: "string option"

record results =
  processed :: int
  errors :: int
  files :: "file_result list"

text \<open>
  The dictionary that one iteration appends (lines 72 to 80 and 94), as a function of the
  path and of the extractor's result.
\<close>

definition file_result_of :: "path \<Rightarrow> result \<Rightarrow> file_result" where
  "file_result_of file_path result =
     (let file_result = \<lparr>fr_file = str file_path,
                         fr_success = \<not> truthy (r_error result),
                         fr_chars = get0 (r_char_count result),
                         fr_words = get0 (r_word_count result),
                         fr_error = None\<rparr>
      in if truthy (r_error result) then file_result\<lparr>fr_error := r_error result\<rparr>
         else file_result)"

definition supported_extensions :: "string set" where
  "supported_extensions =
     {''.pdf'', ''.hwp'', ''.hwpx'', ''.xlsx'', ''.xls'', ''.xlsm'', ''.docx'', ''.zip''}"

text \<open>The test of the list comprehension of line 53.\<close>

definition supported :: "path \<Rightarrow> bool" where
  "supported f = (lower (suffix f) \<in> supported_extensions)"

definition found_files :: "env \<Rightarrow> path \<Rightarrow> path list" where
  "found_files E input_dir = filter supported (rglob E input_dir)"

text \<open>
  One iteration of the \<^verbatim>\<open>for\<close> loop (lines 67 to 94); \<open>n\<close> is \<^verbatim>\<open>len(files)\<close>.
\<close>

definition loop_body ::
  "env \<Rightarrow> path \<Rightarrow> path option \<Rightarrow> nat \<Rightarrow> nat \<Rightarrow> path \<Rightarrow> results \<Rightarrow> world
     \<Rightarrow> (exn + results) \<times> world" where
  "loop_body E input_dir output_dir n idx file_path res w0 =
     (let w1 = logger INFO (Processing idx n (name file_path)) w0
      in case extract_text E input_dir file_path w1 of
           (Inl e, w2) \<Rightarrow> (Inl e, w2)
         | (Inr result, w2) \<Rightarrow>
             let file_result = \<lparr>fr_file = str file_path,
                                fr_success = \<not> truthy (r_error result),
                                fr_chars = get0 (r_char_count result),
                                fr_words = get0 (r_word_count result),
                                fr_error = None\<rparr>
             in if truthy (r_error result) then
                  let file_result' = file_result\<lparr>fr_error := r_error result\<rparr>;
                      res1 = res\<lparr>errors := errors res + 1\<rparr>;
                      w3 = logger WARNING (Failed (the (r_error result))) w2
                  in (Inr (res1\<lparr>files := files res1 @ [file_result']\<rparr>), w3)
                else
                  let res1 = res\<lparr>processed := processed res + 1\<rparr>;
                      w3 = logger INFO (Extracted_chars (get0 (r_char_count result))) w2
                  in (case output_dir of
                        None \<Rightarrow> (Inr (res1\<lparr>files := files res1 @ [file_result]\<rparr>), w3)
                      | Some out \<Rightarrow>
                          if truthy (r_text result) then
                            (case relative_to file_path input_dir of
                               Inl e \<Rightarrow> (Inl e, w3)
                             | Inr relative_path \<Rightarrow>
                                 (case with_suffix relative_path ''.txt'' of
                                    Inl e \<Rightarrow> (Inl e, w3)
                                  | Inr renamed \<Rightarrow>
                                      let output_file = out @ renamed
                                      in (case mkdir E (parent output_file) w3 of
                                            (Inl e, w4) \<Rightarrow> (Inl e, w4)
                                          | (Inr _, w4) \<Rightarrow>
                                              (case write_text E output_file
                                                      (the (r_text result)) w4 of
                                                 (Inl e, w5) \<Rightarrow> (Inl e, w5)
                                               | (Inr _, w5) \<Rightarrow>
                                                   (Inr (res1\<lparr>files := files res1 @ [file_result]\<rparr>),
                                                    w5)))))
                          else (Inr (res1\<lparr>files := files res1 @ [file_result]\<rparr>), w3)))"

text \<open>The \<^verbatim>\<open>for\<close> loop: an exception of an iteration ends it.\<close>

fun for_loop ::
  "env \<Rightarrow> path \<Rightarrow> path option \<Rightarrow> nat \<Rightarrow> (nat \<times> path) list \<Rightarrow> results \<Rightarrow> world
     \<Rightarrow> (exn + results) \<times> world" where
  "for_loop E input_dir output_dir n [] res w = (Inr res, w)"
| "for_loop E input_dir output_dir n ((idx, file_path) # xs) res w =
     (case loop_body E input_dir output_dir n idx file_path res w of
        (Inl e, w') \<Rightarrow> (Inl e, w')
      | (Inr res', w') \<Rightarrow> for_loop E input_dir output_dir n xs res' w')"

definition extract_directory ::
  "env \<Rightarrow> path \<Rightarrow> path option \<Rightarrow> world \<Rightarrow> (exn + results) \<times> world" where
  "extract_directory E input_dir output_dir w0 =
     (let found = found_files E input_dir
      in if found = [] then
           (Inr \<lparr>processed = 0, errors = 0, files = []\<rparr>,
            logger WARNING (No_supported_files_found_in input_dir) w0)
         else
           let w1 = logger INFO (Found_supported_files (length found)) w0;
               res0 = \<lparr>processed = 0, errors = 0, files = []\<rparr>
           in case for_loop E input_dir output_dir (length found) (enumerate 1 found)
                     res0 w1 of
                (Inl e, w2) \<Rightarrow> (Inl e, w2)
              | (Inr res, w2) \<Rightarrow>
                  (Inr res,
                   logger INFO (Extraction_complete (processed res) (errors res))
                     (logger INFO Separator w2)))"

subsection \<open>main\<close>







subsection \<open>Example runs\<close>

text \<open>
  The directory \<^verbatim>\<open>docs\<close> of the examples holds \<^verbatim>\<open>a.pdf\<close> (which extracts to
  "Hello world"), \<^verbatim>\<open>b.txt\<close>, and a directory \<^verbatim>\<open>sub\<close> with
  \<^verbatim>\<open>c.XLSX\<close> (whose extraction reports "corrupt archive").
\<close>

definition docs :: path where
  "docs = [''docs'']"

definition out_root :: path where
  "out_root = [''out'']"

definition hello_result :: result where
  "hello_result = \<lparr>r_text = Some ''Hello world'', r_char_count = Some 11,
     r_word_count = Some 2, r_error = None\<rparr>"

definition corrupt_result :: result where
  "corrupt_result = \<lparr>r_text = None, r_char_count = None, r_word_count = None,
     r_error = Some ''corrupt archive''\<rparr>"

definition empty_result :: result where
  "empty_result = \<lparr>r_text = Some [], r_char_count = Some 0, r_word_count = Some 0,
     r_error = None\<rparr>"

definition env_demo :: env where
  "env_demo =
     \<lparr>exists = (\<lambda>p. p \<in> {[''docs''], [''docs'', ''sub''], [''docs'', ''a.pdf''],
                          [''docs'', ''b.txt''], [''docs'', ''sub'', ''c.XLSX'']}),
      is_file = (\<lambda>p. p \<in> {[''docs'', ''a.pdf''], [''docs'', ''b.txt''],
                           [''docs'', ''sub'', ''c.XLSX'']}),
      is_dir = (\<lambda>p. p \<in> {[''docs''], [''docs'', ''sub'']}),
      scan = (\<lambda>d. [[''a.pdf''], [''b.txt''], [''sub''], [''sub'', ''c.XLSX'']]),
      TextExtractor = (\<lambda>root p. if name p = ''a.pdf'' then Inr hello_result
                                  else Inr corrupt_result),
      mkdir_raises = (\<lambda>p. None),
      write_raises = (\<lambda>p. None)\<rparr>"

text \<open>The same directory with an extractor that raises.\<close>

definition env_raising :: env where
  "env_raising = env_demo\<lparr>TextExtractor := (\<lambda>root p. Inl (Exception ''unreadable file''))\<rparr>"

text \<open>The same directory when no file can be written.\<close>

definition env_disk_full :: env where
  "env_disk_full = env_demo\<lparr>write_raises := (\<lambda>p. Some (OSError ''No space left on device''))\<rparr>"

text \<open>The same directory when every document is empty.\<close>

definition env_empty_text :: env where
  "env_empty_text = env_demo\<lparr>TextExtractor := (\<lambda>root p. Inr empty_result)\<rparr>"

text \<open>The same directory when every document extracts to "Hello world".\<close>

definition env_hello :: env where
  "env_hello = env_demo\<lparr>TextExtractor := (\<lambda>root p. Inr hello_result)\<rparr>"

text \<open>A directory with two documents, listed in one order and in the other.\<close>

definition env_ab :: env where
  "env_ab = env_demo\<lparr>scan := (\<lambda>d. [[''a.pdf''], [''b.pdf'']]),
     TextExtractor := (\<lambda>root p. Inr hello_result)\<rparr>"

definition env_ba :: env where
  "env_ba = env_ab\<lparr>scan := (\<lambda>d. [[''b.pdf''], [''a.pdf'']])\<rparr>"



text \<open>
  A directory \<^verbatim>\<open>docs\<close> whose only entry is a directory named
  \<^verbatim>\<open>reports.pdf\<close>, which holds the file \<^verbatim>\<open>notes.txt\<close>.
\<close>

definition is_a_directory :: result where
  "is_a_directory = \<lparr>r_text = None, r_char_count = None, r_word_count = None,
     r_error = Some ''Is a directory''\<rparr>"

definition env_dir_pdf :: env where
  "env_dir_pdf =
     \<lparr>exists = (\<lambda>p. p \<in> {[''docs''], [''docs'', ''reports.pdf''],
                          [''docs'', ''reports.pdf'', ''notes.txt'']}),
      is_file = (\<lambda>p. p = [''docs'', ''reports.pdf'', ''notes.txt'']),
      is_dir = (\<lambda>p. p \<in> {[''docs''], [''docs'', ''reports.pdf'']}),
      scan = (\<lambda>d. [[''reports.pdf''], [''reports.pdf'', ''notes.txt'']]),
      TextExtractor = (\<lambda>root p. Inr is_a_directory),
      mkdir_raises = (\<lambda>p. None),
      write_raises = (\<lambda>p. None)\<rparr>"






text \<open>The report of \<^verbatim>\<open>docs\<close>.\<close>

definition demo_report :: results where
  "demo_report =
     \<lparr>processed = 1, errors = 1,
      files = [\<lparr>fr_file = ''docs/a.pdf'', fr_success = True, fr_chars = 11, fr_words = 2,
                 fr_error = None\<rparr>,
               \<lparr>fr_file = ''docs/sub/c.XLSX'', fr_success = False, fr_chars = 0,
                 fr_words = 0, fr_error = Some ''corrupt archive''\<rparr>]\<rparr>"

section \<open>Properties\<close>

subsection \<open>Logging\<close>

lemma logger_keeps:
  "calls (logger l m w) = calls w"
  "dirs_made (logger l m w) = dirs_made w"
  "written (logger l m w) = written w"
  "printed (logger l m w) = printed w"
  "root_level (logger l m w) = root_level w"
  by (simp_all add: logger_def)


subsection \<open>Paths\<close>

lemma strip_prefix_append: "strip_prefix d (d @ rel) = Some rel"
  by (induction d) simp_all

lemma relative_to_append: "relative_to (d @ rel) d = Inr rel"
  by (simp add: relative_to_def strip_prefix_append)

lemma name_append: "rel \<noteq> [] \<Longrightarrow> name (d @ rel) = name rel"
  by (simp add: name_def)

lemma suffix_append: "rel \<noteq> [] \<Longrightarrow> suffix (d @ rel) = suffix rel"
  by (simp add: suffix_def name_append)

lemma supported_append: "rel \<noteq> [] \<Longrightarrow> supported (d @ rel) = supported rel"
  by (simp add: supported_def suffix_append)

lemma stem_suffix: "stem p @ suffix p = name p"
  by (simp add: stem_def suffix_def Let_def)

lemma suffix_name_nonempty: "suffix p \<noteq> [] \<Longrightarrow> name p \<noteq> []"
  by (auto simp add: suffix_def Let_def split: if_splits)

lemma supported_suffix_nonempty: "supported p \<Longrightarrow> suffix p \<noteq> []"
  by (auto simp add: supported_def supported_extensions_def lower_def)

lemma supported_name_nonempty: "supported p \<Longrightarrow> name p \<noteq> []"
  by (simp add: supported_suffix_nonempty suffix_name_nonempty)

lemma with_suffix_txt:
  "name p \<noteq> [] \<Longrightarrow> with_suffix p ''.txt'' = Inr (butlast p @ [stem p @ ''.txt''])"
  by (auto simp add: with_suffix_def stem_def suffix_def Let_def)

lemma found_files_scan:
  "found_files E d =
     map (\<lambda>rel. d @ rel) (filter (\<lambda>rel. rel \<noteq> [] \<and> supported rel) (scan E d))"
proof -
  have "filter (\<lambda>rel. rel \<noteq> [] \<and> supported (d @ rel)) (scan E d) =
        filter (\<lambda>rel. rel \<noteq> [] \<and> supported rel) (scan E d)"
    by (rule filter_cong) (auto simp add: supported_append)
  then show ?thesis
    by (simp add: found_files_def rglob_def filter_map o_def)
qed

subsection \<open>One iteration and the loop\<close>

lemmas loop_defs = loop_body_def extract_text_def mkdir_def write_text_def logger_keeps Let_def

lemma loop_body_raises:
  "TextExtractor E i fp = Inl e \<Longrightarrow> fst (loop_body E i out n idx fp res w) = Inl e"
  by (simp add: loop_defs)


lemma loop_body_Inr_result:
  assumes "loop_body E i out n idx fp res w = (Inr res', w')"
  shows "\<exists>r. TextExtractor E i fp = Inr r \<and>
           res' = (if truthy (r_error r)
                   then res\<lparr>errors := errors res + 1, files := files res @ [file_result_of fp r]\<rparr>
                   else res\<lparr>processed := processed res + 1,
                           files := files res @ [file_result_of fp r]\<rparr>)"
  using assms
  by (auto simp add: loop_defs file_result_of_def split: sum.splits option.splits if_splits)

lemma loop_body_error:
  assumes "TextExtractor E i fp = Inr r" and "truthy (r_error r)"
  shows "\<exists>w'. loop_body E i out n idx fp res w =
           (Inr (res\<lparr>errors := errors res + 1, files := files res @ [file_result_of fp r]\<rparr>), w')
         \<and> written w' = written w \<and> dirs_made w' = dirs_made w"
  using assms by (simp add: loop_defs file_result_of_def)

lemma loop_body_written:
  assumes "loop_body E i (Some out) n idx (i @ rel) res w = (Inr res', w')"
    and "TextExtractor E i (i @ rel) = Inr r" and "name rel \<noteq> []"
  shows "written w' = written w @
           (if \<not> truthy (r_error r) \<and> truthy (r_text r)
            then [(out @ butlast rel @ [stem rel @ ''.txt''], the (r_text r))] else [])"
  using assms
  by (auto simp add: loop_defs relative_to_append with_suffix_txt split: sum.splits option.splits if_splits)

lemma loop_body_written_None:
  assumes "loop_body E i None n idx fp res w = (Inr res', w')"
  shows "written w' = written w"
  using assms
  by (auto simp add: loop_defs split: sum.splits option.splits if_splits)



lemma stem_append: "rel \<noteq> [] \<Longrightarrow> stem (d @ rel) = stem rel"
  by (simp add: stem_def name_append)

lemma name_nonempty: "name rel \<noteq> [] \<Longrightarrow> rel \<noteq> []"
  by (auto simp add: name_def)



lemma for_loop_files:
  assumes "for_loop E i out n xs res w = (Inr res', w')"
  shows "\<exists>rs. files res' = files res @ rs \<and>
           list_all2 (\<lambda>x fr. \<exists>r. TextExtractor E i (snd x) = Inr r \<and>
                                  fr = file_result_of (snd x) r) xs rs \<and>
           processed res' = processed res + int (length (filter fr_success rs)) \<and>
           errors res' = errors res + int (length (filter (\<lambda>fr. \<not> fr_success fr) rs))"
  using assms
proof (induction xs arbitrary: res w)
  case Nil
  then show ?case by simp
next
  case (Cons x xs)
  obtain idx fp where x: "x = (idx, fp)" by (cases x)
  obtain a w1 where lb: "loop_body E i out n idx fp res w = (a, w1)"
    by (cases "loop_body E i out n idx fp res w")
  from Cons.prems x lb obtain res1 where a: "a = Inr res1"
    by (cases a) auto
  from loop_body_Inr_result [of E i out n idx fp res w res1 w1] lb a
  obtain r where r: "TextExtractor E i fp = Inr r"
    and res1: "res1 = (if truthy (r_error r)
                   then res\<lparr>errors := errors res + 1, files := files res @ [file_result_of fp r]\<rparr>
                   else res\<lparr>processed := processed res + 1,
                           files := files res @ [file_result_of fp r]\<rparr>)"
    by auto
  from Cons.prems x lb a have "for_loop E i out n xs res1 w1 = (Inr res', w')" by simp
  from Cons.IH [OF this] obtain rs where
    f: "files res' = files res1 @ rs" and
    l: "list_all2 (\<lambda>x fr. \<exists>r. TextExtractor E i (snd x) = Inr r \<and>
                                  fr = file_result_of (snd x) r) xs rs" and
    p: "processed res' = processed res1 + int (length (filter fr_success rs))" and
    e: "errors res' = errors res1 + int (length (filter (\<lambda>fr. \<not> fr_success fr) rs))"
    by blast
  have s: "fr_success (file_result_of fp r) = (\<not> truthy (r_error r))"
    by (simp add: file_result_of_def Let_def)
  show ?case
    using f l p e r res1 x s
    by (intro exI [of _ "file_result_of fp r # rs"]) (auto simp add: Let_def)
qed

lemma for_loop_invariant:
  assumes "for_loop E i out n xs res w = (Inr res', w')"
    and "processed res + errors res = int (length (files res))"
  shows "processed res' + errors res' = int (length (files res'))"
proof -
  from for_loop_files [OF assms(1)] obtain rs where
    f: "files res' = files res @ rs" and
    p: "processed res' = processed res + int (length (filter fr_success rs))" and
    e: "errors res' = errors res + int (length (filter (\<lambda>fr. \<not> fr_success fr) rs))"
    by blast
  have "length (filter fr_success rs) + length (filter (\<lambda>fr. \<not> fr_success fr) rs) = length rs"
    by (rule sum_length_filter_compl)
  with f p e assms(2) show ?thesis by simp
qed


lemma for_loop_written:
  assumes "for_loop E i (Some out) n xs res w = (Inr res', w')"
    and "\<forall>x\<in>set xs. \<exists>rel. snd x = i @ rel \<and> name rel \<noteq> []"
  shows "written w' = written w @
           concat (map (\<lambda>x. case TextExtractor E i (snd x) of
                               Inl e \<Rightarrow> []
                             | Inr r \<Rightarrow>
                                 if \<not> truthy (r_error r) \<and> truthy (r_text r)
                                 then [(out @ butlast (drop (length i) (snd x)) @
                                          [stem (snd x) @ ''.txt''], the (r_text r))]
                                 else []) xs)"
  using assms
proof (induction xs arbitrary: res w)
  case Nil
  then show ?case by simp
next
  case (Cons x xs)
  obtain idx fp where x: "x = (idx, fp)" by (cases x)
  from Cons.prems(2) x obtain rel where fp: "fp = i @ rel" and nm: "name rel \<noteq> []" by auto
  obtain a w1 where lb: "loop_body E i (Some out) n idx fp res w = (a, w1)"
    by (cases "loop_body E i (Some out) n idx fp res w")
  from Cons.prems(1) x lb obtain res1 where a: "a = Inr res1"
    by (cases a) auto
  from loop_body_Inr_result [of E i "Some out" n idx fp res w res1 w1] lb a
  obtain r where r: "TextExtractor E i fp = Inr r" by auto
  from loop_body_written [of E i out n idx rel res w res1 w1 r] lb a r fp nm
  have w1: "written w1 = written w @
           (if \<not> truthy (r_error r) \<and> truthy (r_text r)
            then [(out @ butlast rel @ [stem rel @ ''.txt''], the (r_text r))] else [])"
    by simp
  from Cons.prems x lb a have "for_loop E i (Some out) n xs res1 w1 = (Inr res', w')" by simp
  from Cons.IH [OF this] Cons.prems(2)
  have "written w' = written w1 @
           concat (map (\<lambda>x. case TextExtractor E i (snd x) of
                               Inl e \<Rightarrow> []
                             | Inr r \<Rightarrow>
                                 if \<not> truthy (r_error r) \<and> truthy (r_text r)
                                 then [(out @ butlast (drop (length i) (snd x)) @
                                          [stem (snd x) @ ''.txt''], the (r_text r))]
                                 else []) xs)" by simp
  with w1 x r fp nm show ?case
    by (simp add: stem_append name_nonempty)
qed

subsection \<open>The whole walk\<close>

lemma extract_directory_loop:
  "\<exists>w1. calls w1 = calls w \<and> written w1 = written w \<and> dirs_made w1 = dirs_made w \<and>
     fst (extract_directory E i out w) =
       fst (for_loop E i out (length (found_files E i)) (enumerate 1 (found_files E i))
              \<lparr>processed = 0, errors = 0, files = []\<rparr> w1) \<and>
     calls (snd (extract_directory E i out w)) =
       calls (snd (for_loop E i out (length (found_files E i)) (enumerate 1 (found_files E i))
              \<lparr>processed = 0, errors = 0, files = []\<rparr> w1)) \<and>
     written (snd (extract_directory E i out w)) =
       written (snd (for_loop E i out (length (found_files E i)) (enumerate 1 (found_files E i))
              \<lparr>processed = 0, errors = 0, files = []\<rparr> w1))"
proof (cases "found_files E i = []")
  case True
  then show ?thesis
    by (intro exI [of _ "logger WARNING (No_supported_files_found_in i) w"])
       (simp add: extract_directory_def logger_keeps)
next
  case False
  then show ?thesis
    by (intro exI [of _ "logger INFO (Found_supported_files (length (found_files E i))) w"])
       (simp add: extract_directory_def logger_keeps Let_def split: prod.splits sum.splits)
qed

lemma extract_directory_Inr:
  assumes "extract_directory E i out w = (Inr rep, w')"
  shows "\<exists>w1 w2. calls w1 = calls w \<and> written w1 = written w \<and>
           for_loop E i out (length (found_files E i)) (enumerate 1 (found_files E i))
              \<lparr>processed = 0, errors = 0, files = []\<rparr> w1 = (Inr rep, w2) \<and>
           calls w' = calls w2 \<and> written w' = written w2"
proof -
  from extract_directory_loop [of w E i out] obtain w1 where
    c: "calls w1 = calls w" and wr: "written w1 = written w" and
    f: "fst (extract_directory E i out w) =
       fst (for_loop E i out (length (found_files E i)) (enumerate 1 (found_files E i))
              \<lparr>processed = 0, errors = 0, files = []\<rparr> w1)" and
    cs: "calls (snd (extract_directory E i out w)) =
       calls (snd (for_loop E i out (length (found_files E i)) (enumerate 1 (found_files E i))
              \<lparr>processed = 0, errors = 0, files = []\<rparr> w1))" and
    ws: "written (snd (extract_directory E i out w)) =
       written (snd (for_loop E i out (length (found_files E i)) (enumerate 1 (found_files E i))
              \<lparr>processed = 0, errors = 0, files = []\<rparr> w1))"
    by blast
  obtain a w2 where fl: "for_loop E i out (length (found_files E i))
      (enumerate 1 (found_files E i)) \<lparr>processed = 0, errors = 0, files = []\<rparr> w1 = (a, w2)"
    by (cases "for_loop E i out (length (found_files E i))
      (enumerate 1 (found_files E i)) \<lparr>processed = 0, errors = 0, files = []\<rparr> w1")
  from f fl assms have "a = Inr rep" by simp
  with c wr cs ws fl assms show ?thesis by auto
qed

lemma list_all2_map_eq:
  "list_all2 P xs ys \<Longrightarrow> (\<And>x y. P x y \<Longrightarrow> f x = g y) \<Longrightarrow> map f xs = map g ys"
  by (induction rule: list_all2_induct) auto

lemma extract_directory_files:
  assumes "extract_directory E i out w = (Inr rep, w')"
  shows "list_all2 (\<lambda>fp fr. \<exists>r. TextExtractor E i fp = Inr r \<and> fr = file_result_of fp r)
           (found_files E i) (files rep) \<and>
         processed rep = int (length (filter fr_success (files rep))) \<and>
         errors rep = int (length (filter (\<lambda>fr. \<not> fr_success fr) (files rep)))"
proof -
  from extract_directory_Inr [OF assms] obtain w1 w2 where
    fl: "for_loop E i out (length (found_files E i)) (enumerate 1 (found_files E i))
              \<lparr>processed = 0, errors = 0, files = []\<rparr> w1 = (Inr rep, w2)" by blast
  from for_loop_files [OF fl] obtain rs where
    f: "files rep = rs" and
    l: "list_all2 (\<lambda>x fr. \<exists>r. TextExtractor E i (snd x) = Inr r \<and>
                                  fr = file_result_of (snd x) r)
          (enumerate 1 (found_files E i)) rs" and
    p: "processed rep = int (length (filter fr_success rs))" and
    e: "errors rep = int (length (filter (\<lambda>fr. \<not> fr_success fr) rs))"
    by auto
  from l have "list_all2 (\<lambda>fp fr. \<exists>r. TextExtractor E i fp = Inr r \<and> fr = file_result_of fp r)
      (map snd (enumerate 1 (found_files E i))) rs"
    by (simp only: list_all2_map1)
  then have "list_all2 (\<lambda>fp fr. \<exists>r. TextExtractor E i fp = Inr r \<and> fr = file_result_of fp r)
      (found_files E i) rs"
    by simp
  with f p e show ?thesis by simp
qed


lemma found_files_under:
  "fp \<in> set (found_files E i) \<Longrightarrow> \<exists>rel. fp = i @ rel \<and> name rel \<noteq> []"
  by (auto simp add: found_files_scan supported_name_nonempty)

lemma fst_pair: "fst X = a \<Longrightarrow> X = (a, snd X)"
  by (cases X) simp



lemma extract_directory_paths:
  assumes "fst (extract_directory E i out w) = Inr rep"
  shows "map fr_file (files rep) = map str (found_files E i)"
proof -
  from extract_directory_files [OF fst_pair [OF assms]]
  have l: "list_all2 (\<lambda>fp fr. \<exists>r. TextExtractor E i fp = Inr r \<and> fr = file_result_of fp r)
           (found_files E i) (files rep)" by simp
  have "map str (found_files E i) = map fr_file (files rep)"
    by (rule list_all2_map_eq [OF l]) (auto simp add: file_result_of_def Let_def)
  then show ?thesis by simp
qed

lemma extract_directory_written:
  assumes "fst (extract_directory E i (Some out) w) = Inr rep"
  shows "written (snd (extract_directory E i (Some out) w)) = written w @
           concat (map (\<lambda>rel. case TextExtractor E i (i @ rel) of
                                 Inl e \<Rightarrow> []
                               | Inr r \<Rightarrow>
                                   if \<not> truthy (r_error r) \<and> truthy (r_text r)
                                   then [(out @ butlast rel @ [stem rel @ ''.txt''],
                                          the (r_text r))]
                                   else [])
                    (filter (\<lambda>rel. rel \<noteq> [] \<and> supported rel) (scan E i)))"
proof -
  let ?g = "\<lambda>fp. case TextExtractor E i fp of
                    Inl e \<Rightarrow> []
                  | Inr r \<Rightarrow>
                      if \<not> truthy (r_error r) \<and> truthy (r_text r)
                      then [(out @ butlast (drop (length i) fp) @ [stem fp @ ''.txt''],
                             the (r_text r))]
                      else []"
  let ?h = "\<lambda>rel. case TextExtractor E i (i @ rel) of
                     Inl e \<Rightarrow> []
                   | Inr r \<Rightarrow>
                       if \<not> truthy (r_error r) \<and> truthy (r_text r)
                       then [(out @ butlast rel @ [stem rel @ ''.txt''], the (r_text r))]
                       else []"
  let ?rels = "filter (\<lambda>rel. rel \<noteq> [] \<and> supported rel) (scan E i)"
  from extract_directory_Inr [OF fst_pair [OF assms]] obtain w1 w2 where
    wr: "written w1 = written w" and
    fl: "for_loop E i (Some out) (length (found_files E i)) (enumerate 1 (found_files E i))
              \<lparr>processed = 0, errors = 0, files = []\<rparr> w1 = (Inr rep, w2)" and
    w2: "written (snd (extract_directory E i (Some out) w)) = written w2" by blast
  have u: "\<forall>x\<in>set (enumerate 1 (found_files E i)). \<exists>rel. snd x = i @ rel \<and> name rel \<noteq> []"
  proof
    fix x assume "x \<in> set (enumerate 1 (found_files E i))"
    then have "snd x \<in> snd ` set (enumerate 1 (found_files E i))"
      by (rule imageI)
    then have "snd x \<in> set (map snd (enumerate 1 (found_files E i)))"
      by (simp only: set_map)
    then have "snd x \<in> set (found_files E i)" by simp
    then show "\<exists>rel. snd x = i @ rel \<and> name rel \<noteq> []"
      by (rule found_files_under)
  qed
  from for_loop_written [OF fl u]
  have "written w2 = written w1 @ concat (map (\<lambda>x. ?g (snd x)) (enumerate 1 (found_files E i)))"
    by simp
  also have "map (\<lambda>x. ?g (snd x)) (enumerate 1 (found_files E i)) =
             map ?g (map snd (enumerate 1 (found_files E i)))"
    by (simp only: map_map o_def)
  also have "map snd (enumerate 1 (found_files E i)) = map (\<lambda>rel. i @ rel) ?rels"
    by (simp add: found_files_scan)
  also have "map ?g (map (\<lambda>rel. i @ rel) ?rels) = map ?h ?rels"
    by (auto simp add: stem_append split: sum.splits)
  finally show ?thesis using wr w2 by simp
qed

lemma extract_single_file_fst:
  "fst (extract_single_file E fp outp w) =
     (case TextExtractor E (parent fp) fp of
        Inl e \<Rightarrow> Inl e
      | Inr r \<Rightarrow>
          if truthy (r_error r) then Inr r
          else (case outp of
                  None \<Rightarrow> Inr r
                | Some out \<Rightarrow>
                    if truthy (r_text r) then
                      (case mkdir_raises E (parent out) of
                         Some e \<Rightarrow> Inl e
                       | None \<Rightarrow> (case write_raises E out of Some e \<Rightarrow> Inl e | None \<Rightarrow> Inr r))
                    else Inr r))"
  by (simp add: extract_single_file_def extract_text_def mkdir_def write_text_def logger_keeps
      Let_def split: sum.splits option.splits)

lemma extract_single_file_written:
  "written (snd (extract_single_file E fp outp w)) = written w @
     (case TextExtractor E (parent fp) fp of
        Inl e \<Rightarrow> []
      | Inr r \<Rightarrow>
          (case outp of
             None \<Rightarrow> []
           | Some out \<Rightarrow>
               if \<not> truthy (r_error r) \<and> truthy (r_text r) \<and>
                  mkdir_raises E (parent out) = None \<and> write_raises E out = None
               then [(out, the (r_text r))] else []))"
  by (auto simp add: extract_single_file_def extract_text_def mkdir_def write_text_def
      logger_keeps Let_def split: sum.splits option.splits)

lemma loop_body_written_any:
  assumes "TextExtractor E i (i @ rel) = Inr r" and "name rel \<noteq> []"
  shows "written (snd (loop_body E i (Some out) n idx (i @ rel) res w)) = written w @
           (if \<not> truthy (r_error r) \<and> truthy (r_text r) \<and>
               mkdir_raises E (parent (out @ butlast rel @ [stem rel @ ''.txt''])) = None \<and>
               write_raises E (out @ butlast rel @ [stem rel @ ''.txt'']) = None
            then [(out @ butlast rel @ [stem rel @ ''.txt''], the (r_text r))] else [])"
  using assms
  by (auto simp add: loop_defs relative_to_append with_suffix_txt
      split: sum.splits option.splits)

lemma loop_body_returns_reported:
  assumes "TextExtractor E i fp = Inr r" and "truthy (r_error r)"
  shows "fst (loop_body E i out n idx fp res w) =
           Inr (res\<lparr>errors := errors res + 1, files := files res @ [file_result_of fp r]\<rparr>)"
  using loop_body_error [OF assms, of out n idx res w] by auto









section \<open>The claims\<close>

subsection \<open>The counters and the records\<close>

text \<open>
  Claim C3. A directory run that returns a report returns one in which
  \<open>processed + errors\<close> is the number of records, and that number is the number of
  entries the walk selected. One iteration that completes appends exactly one record and
  adds one to exactly one of the two counters. The equation is an invariant of the loop:
  it holds after any number of iterations that started from a state in which it held (the
  initial state, with both counters 0 and no record, is one).
\<close>

theorem C3_counts_match_records:
  "(fst (extract_directory E i out w) = Inr rep \<longrightarrow>
      processed rep + errors rep = int (length (files rep)) \<and>
      length (files rep) = length (found_files E i)) \<and>
   (fst (loop_body E i out n idx fp res w) = Inr res1 \<longrightarrow>
      length (files res1) = Suc (length (files res)) \<and>
      ((processed res1 = processed res + 1 \<and> errors res1 = errors res) \<or>
       (processed res1 = processed res \<and> errors res1 = errors res + 1))) \<and>
   (fst (for_loop E i out n xs res w) = Inr res2 \<and>
    processed res + errors res = int (length (files res)) \<longrightarrow>
      processed res2 + errors res2 = int (length (files res2)))"
proof (intro conjI impI)
  assume a: "fst (extract_directory E i out w) = Inr rep"
  from extract_directory_files [OF fst_pair [OF a]]
  have l: "list_all2 (\<lambda>fp fr. \<exists>r. TextExtractor E i fp = Inr r \<and> fr = file_result_of fp r)
           (found_files E i) (files rep)"
    and p: "processed rep = int (length (filter fr_success (files rep)))"
    and e: "errors rep = int (length (filter (\<lambda>fr. \<not> fr_success fr) (files rep)))"
    by simp_all
  have "length (filter fr_success (files rep)) +
        length (filter (\<lambda>fr. \<not> fr_success fr) (files rep)) = length (files rep)"
    by (rule sum_length_filter_compl)
  with p e show "processed rep + errors rep = int (length (files rep))" by simp
  from l show "length (files rep) = length (found_files E i)"
    by (simp add: list_all2_lengthD)
next
  assume a: "fst (loop_body E i out n idx fp res w) = Inr res1"
  from loop_body_Inr_result [OF fst_pair [OF a]] obtain r where
    "res1 = (if truthy (r_error r)
             then res\<lparr>errors := errors res + 1, files := files res @ [file_result_of fp r]\<rparr>
             else res\<lparr>processed := processed res + 1,
                      files := files res @ [file_result_of fp r]\<rparr>)"
    by blast
  then show "length (files res1) = Suc (length (files res))"
    and "(processed res1 = processed res + 1 \<and> errors res1 = errors res) \<or>
         (processed res1 = processed res \<and> errors res1 = errors res + 1)"
    by (simp_all split: if_splits)
next
  assume "fst (for_loop E i out n xs res w) = Inr res2 \<and>
    processed res + errors res = int (length (files res))"
  then have a: "fst (for_loop E i out n xs res w) = Inr res2"
    and b: "processed res + errors res = int (length (files res))" by simp_all
  from for_loop_invariant [OF fst_pair [OF a] b]
  show "processed res2 + errors res2 = int (length (files res2))" .
qed

theorem C3_counts_match_records_witness:
  "fst (extract_directory env_demo docs (Some out_root) world0) = Inr demo_report \<and>
   processed demo_report + errors demo_report = int (length (files demo_report)) \<and>
   length (files demo_report) = length (found_files env_demo docs) \<and>
   fst (loop_body env_demo docs (Some out_root) 2 1 [''docs'', ''a.pdf'']
          \<lparr>processed = 0, errors = 0, files = []\<rparr> world0) =
     Inr \<lparr>processed = 1, errors = 0, files = [hd (files demo_report)]\<rparr> \<and>
   fst (for_loop env_demo docs (Some out_root) 2 (enumerate 1 (found_files env_demo docs))
          \<lparr>processed = 0, errors = 0, files = []\<rparr> world0) = Inr demo_report"
proof -
  have h1: "fst (extract_directory env_demo docs (Some out_root) world0) = Inr demo_report"
    by code_simp
  have h2: "fst (loop_body env_demo docs (Some out_root) 2 1 [''docs'', ''a.pdf'']
          \<lparr>processed = 0, errors = 0, files = []\<rparr> world0) =
     Inr \<lparr>processed = 1, errors = 0, files = [hd (files demo_report)]\<rparr>"
    by code_simp
  have h3: "fst (for_loop env_demo docs (Some out_root) 2
          (enumerate 1 (found_files env_demo docs))
          \<lparr>processed = 0, errors = 0, files = []\<rparr> world0) = Inr demo_report"
    by code_simp
  have h4: "processed \<lparr>processed = 0, errors = 0, files = []\<rparr> +
            errors \<lparr>processed = 0, errors = 0, files = []\<rparr> =
            int (length (files \<lparr>processed = 0, errors = 0, files = []\<rparr>))"
    by simp
  from C3_counts_match_records [of env_demo docs "Some out_root" world0 demo_report
      2 1 "[''docs'', ''a.pdf'']" "\<lparr>processed = 0, errors = 0, files = []\<rparr>"
      "\<lparr>processed = 1, errors = 0, files = [hd (files demo_report)]\<rparr>"
      "enumerate 1 (found_files env_demo docs)" demo_report]
    h1 h2 h3 h4
  show ?thesis by blast
qed

subsection \<open>The records\<close>

text \<open>
  Claim C9. An iteration that completes appends the record \<open>file_result_of fp r\<close> built
  from the path and the extractor's result \<open>r\<close>, and a run that returns a report returns
  these records, one for each selected entry, in order. In that record the path is the
  source path as text; the success flag is true exactly when the result carries no error
  message (the key is missing, \<^verbatim>\<open>None\<close> or empty, which is how the code tests it);
  the error message is kept when there is one; and each count is the result's count, 0
  when the result has none, as the result of a failed extraction does.
\<close>

theorem C9_record_of_outcome:
  "(fst (loop_body E i out n idx fp res w) = Inr res1 \<longrightarrow>
      (\<exists>r. TextExtractor E i fp = Inr r \<and> files res1 = files res @ [file_result_of fp r])) \<and>
   (fst (extract_directory E i out w) = Inr rep \<longrightarrow>
      list_all2 (\<lambda>fp fr. \<exists>r. TextExtractor E i fp = Inr r \<and> fr = file_result_of fp r)
        (found_files E i) (files rep)) \<and>
   fr_file (file_result_of fp r) = str fp \<and>
   (fr_success (file_result_of fp r) \<longleftrightarrow> \<not> truthy (r_error r)) \<and>
   (fr_success (file_result_of fp r) \<longleftrightarrow> (r_error r = None \<or> r_error r = Some [])) \<and>
   fr_error (file_result_of fp r) = (if truthy (r_error r) then r_error r else None) \<and>
   fr_chars (file_result_of fp r) = (case r_char_count r of None \<Rightarrow> 0 | Some c \<Rightarrow> c) \<and>
   fr_words (file_result_of fp r) = (case r_word_count r of None \<Rightarrow> 0 | Some c \<Rightarrow> c)"
proof (intro conjI impI)
  assume a: "fst (loop_body E i out n idx fp res w) = Inr res1"
  from loop_body_Inr_result [OF fst_pair [OF a]]
  show "\<exists>r. TextExtractor E i fp = Inr r \<and> files res1 = files res @ [file_result_of fp r]"
    by (auto split: if_splits)
next
  assume a: "fst (extract_directory E i out w) = Inr rep"
  from extract_directory_files [OF fst_pair [OF a]]
  show "list_all2 (\<lambda>fp fr. \<exists>r. TextExtractor E i fp = Inr r \<and> fr = file_result_of fp r)
        (found_files E i) (files rep)" by simp
qed (auto simp add: file_result_of_def truthy_def get0_def Let_def split: option.splits)

theorem C9_record_of_outcome_witness:
  "fst (loop_body env_demo docs None 2 2 [''docs'', ''sub'', ''c.XLSX'']
          \<lparr>processed = 1, errors = 0, files = []\<rparr> world0) =
     Inr \<lparr>processed = 1, errors = 1,
          files = [\<lparr>fr_file = ''docs/sub/c.XLSX'', fr_success = False, fr_chars = 0,
                    fr_words = 0, fr_error = Some ''corrupt archive''\<rparr>]\<rparr> \<and>
   fst (extract_directory env_demo docs None world0) = Inr demo_report \<and>
   list_all2 (\<lambda>fp fr. \<exists>r. TextExtractor env_demo docs fp = Inr r \<and> fr = file_result_of fp r)
     (found_files env_demo docs) (files demo_report) \<and>
   (\<exists>r. TextExtractor env_demo docs [''docs'', ''sub'', ''c.XLSX''] = Inr r \<and>
        [\<lparr>fr_file = ''docs/sub/c.XLSX'', fr_success = False, fr_chars = 0,
           fr_words = 0, fr_error = Some ''corrupt archive''\<rparr>] =
        [file_result_of [''docs'', ''sub'', ''c.XLSX''] r])"
proof -
  have h1: "fst (loop_body env_demo docs None 2 2 [''docs'', ''sub'', ''c.XLSX'']
          \<lparr>processed = 1, errors = 0, files = []\<rparr> world0) =
     Inr \<lparr>processed = 1, errors = 1,
          files = [\<lparr>fr_file = ''docs/sub/c.XLSX'', fr_success = False, fr_chars = 0,
                    fr_words = 0, fr_error = Some ''corrupt archive''\<rparr>]\<rparr>"
    by code_simp
  have h2: "fst (extract_directory env_demo docs None world0) = Inr demo_report"
    by code_simp
  from C9_record_of_outcome [of env_demo docs None 2 2 "[''docs'', ''sub'', ''c.XLSX'']"
      "\<lparr>processed = 1, errors = 0, files = []\<rparr>" world0
      "\<lparr>processed = 1, errors = 1,
          files = [\<lparr>fr_file = ''docs/sub/c.XLSX'', fr_success = False, fr_chars = 0,
                    fr_words = 0, fr_error = Some ''corrupt archive''\<rparr>]\<rparr>" demo_report]
    h1 h2
  show ?thesis by simp
qed

subsection \<open>The order of the records\<close>

text \<open>
  Claim C5, as the code has it. The program does not order the entries: the records of a
  report follow the order in which \<^verbatim>\<open>rglob\<close> yields the selected entries, whatever
  that order is. Two runs over the same directory therefore give their records in the same
  order whenever the directory is listed in the same order for both; when it is listed in
  another order the records may come in another order.
\<close>

theorem C5_records_follow_listing:
  "(fst (extract_directory E i out w) = Inr rep \<longrightarrow>
      map fr_file (files rep) = map str (found_files E i)) \<and>
   found_files E i =
     map (\<lambda>rel. i @ rel) (filter (\<lambda>rel. rel \<noteq> [] \<and> supported rel) (scan E i)) \<and>
   (fst (extract_directory E1 i out1 w1) = Inr rep1 \<and>
    fst (extract_directory E2 i out2 w2) = Inr rep2 \<and> scan E1 i = scan E2 i \<longrightarrow>
      map fr_file (files rep1) = map fr_file (files rep2))"
proof (intro conjI impI)
  assume "fst (extract_directory E i out w) = Inr rep"
  then show "map fr_file (files rep) = map str (found_files E i)"
    by (rule extract_directory_paths)
next
  show "found_files E i =
     map (\<lambda>rel. i @ rel) (filter (\<lambda>rel. rel \<noteq> [] \<and> supported rel) (scan E i))"
    by (rule found_files_scan)
next
  assume "fst (extract_directory E1 i out1 w1) = Inr rep1 \<and>
    fst (extract_directory E2 i out2 w2) = Inr rep2 \<and> scan E1 i = scan E2 i"
  then have a: "fst (extract_directory E1 i out1 w1) = Inr rep1"
    and b: "fst (extract_directory E2 i out2 w2) = Inr rep2"
    and c: "scan E1 i = scan E2 i" by simp_all
  from c have "found_files E1 i = found_files E2 i"
    by (simp add: found_files_scan)
  with extract_directory_paths [OF a] extract_directory_paths [OF b]
  show "map fr_file (files rep1) = map fr_file (files rep2)" by simp
qed

theorem C5_records_follow_listing_witness:
  "fst (extract_directory env_demo docs None world0) = Inr demo_report \<and>
   fst (extract_directory env_disk_full docs None world0) = Inr demo_report \<and>
   scan env_demo docs = scan env_disk_full docs \<and>
   map fr_file (files demo_report) = map str (found_files env_demo docs)"
proof -
  have h1: "fst (extract_directory env_demo docs None world0) = Inr demo_report"
    by code_simp
  have h2: "fst (extract_directory env_disk_full docs None world0) = Inr demo_report"
    by code_simp
  have h3: "scan env_demo docs = scan env_disk_full docs"
    by (simp add: env_disk_full_def)
  from C5_records_follow_listing [of env_demo docs None world0 demo_report
      env_demo None world0 demo_report env_disk_full None world0 demo_report] h1 h2 h3
  show ?thesis by blast
qed

text \<open>
  The claim as the specification states it fails: the same two documents, listed by the
  file system in one order and in the other, give the records in two orders.
\<close>

theorem C5_counterexample:
  "set (scan env_ab docs) = set (scan env_ba docs) \<and>
   TextExtractor env_ab = TextExtractor env_ba \<and>
   fst (extract_directory env_ab docs None world0) =
     Inr \<lparr>processed = 2, errors = 0,
          files = [\<lparr>fr_file = ''docs/a.pdf'', fr_success = True, fr_chars = 11, fr_words = 2,
                     fr_error = None\<rparr>,
                   \<lparr>fr_file = ''docs/b.pdf'', fr_success = True, fr_chars = 11, fr_words = 2,
                     fr_error = None\<rparr>]\<rparr> \<and>
   fst (extract_directory env_ba docs None world0) =
     Inr \<lparr>processed = 2, errors = 0,
          files = [\<lparr>fr_file = ''docs/b.pdf'', fr_success = True, fr_chars = 11, fr_words = 2,
                     fr_error = None\<rparr>,
                   \<lparr>fr_file = ''docs/a.pdf'', fr_success = True, fr_chars = 11, fr_words = 2,
                     fr_error = None\<rparr>]\<rparr>"
proof (intro conjI)
  show "set (scan env_ab docs) = set (scan env_ba docs)"
    by (auto simp add: env_ab_def env_ba_def)
  show "TextExtractor env_ab = TextExtractor env_ba"
    by (simp add: env_ba_def)
qed code_simp+

subsection \<open>Failures during the walk\<close>




subsection \<open>Where the output goes\<close>

text \<open>
  Claim C7. In directory mode with an output root \<open>out\<close>, an entry with the path
  \<open>rel\<close> relative to the input root is written, when it is written, to the output
  root joined with \<open>rel\<close> in which the last segment has lost its suffix and gained
  \<^verbatim>\<open>.txt\<close>; the segments before the last are those of \<open>rel\<close>. An entry whose
  extraction reports an error is never written. The files a completed run has written are
  exactly these, in the order of the walk. (Whether an entry without error is written is
  the subject of claim C2: it is, when its text is not empty.)
\<close>

theorem C7_mirrored_output_path:
  "(TextExtractor E i (i @ rel) = Inr r \<and> name rel \<noteq> [] \<and>
    fst (loop_body E i (Some out) n idx (i @ rel) res w) = Inr res1 \<longrightarrow>
      written (snd (loop_body E i (Some out) n idx (i @ rel) res w)) = written w @
        (if \<not> truthy (r_error r) \<and> truthy (r_text r)
         then [(out @ butlast rel @ [stem rel @ ''.txt''], the (r_text r))] else [])) \<and>
   stem rel @ suffix rel = name rel \<and>
   (fst (extract_directory E i (Some out) w) = Inr rep \<longrightarrow>
      written (snd (extract_directory E i (Some out) w)) = written w @
        concat (map (\<lambda>rel. case TextExtractor E i (i @ rel) of
                              Inl e \<Rightarrow> []
                            | Inr r \<Rightarrow>
                                if \<not> truthy (r_error r) \<and> truthy (r_text r)
                                then [(out @ butlast rel @ [stem rel @ ''.txt''],
                                       the (r_text r))]
                                else [])
                 (filter (\<lambda>rel. rel \<noteq> [] \<and> supported rel) (scan E i))))"
proof (intro conjI impI)
  assume "TextExtractor E i (i @ rel) = Inr r \<and> name rel \<noteq> [] \<and>
    fst (loop_body E i (Some out) n idx (i @ rel) res w) = Inr res1"
  then have a: "TextExtractor E i (i @ rel) = Inr r" and b: "name rel \<noteq> []"
    and c: "fst (loop_body E i (Some out) n idx (i @ rel) res w) = Inr res1" by simp_all
  from loop_body_written [OF fst_pair [OF c] a b]
  show "written (snd (loop_body E i (Some out) n idx (i @ rel) res w)) = written w @
        (if \<not> truthy (r_error r) \<and> truthy (r_text r)
         then [(out @ butlast rel @ [stem rel @ ''.txt''], the (r_text r))] else [])" .
next
  show "stem rel @ suffix rel = name rel" by (rule stem_suffix)
next
  assume "fst (extract_directory E i (Some out) w) = Inr rep"
  then show "written (snd (extract_directory E i (Some out) w)) = written w @
        concat (map (\<lambda>rel. case TextExtractor E i (i @ rel) of
                              Inl e \<Rightarrow> []
                            | Inr r \<Rightarrow>
                                if \<not> truthy (r_error r) \<and> truthy (r_text r)
                                then [(out @ butlast rel @ [stem rel @ ''.txt''],
                                       the (r_text r))]
                                else [])
                 (filter (\<lambda>rel. rel \<noteq> [] \<and> supported rel) (scan E i)))"
    by (rule extract_directory_written)
qed

theorem C7_mirrored_output_path_witness:
  "TextExtractor env_demo docs (docs @ [''sub'', ''c.XLSX'']) = Inr corrupt_result \<and>
   name [''sub'', ''c.XLSX''] \<noteq> [] \<and>
   written (snd (loop_body env_demo docs (Some out_root) 2 2 (docs @ [''sub'', ''c.XLSX''])
                   \<lparr>processed = 1, errors = 0, files = []\<rparr> world0)) = [] \<and>
   fst (extract_directory env_hello docs (Some out_root) world0) =
     Inr \<lparr>processed = 2, errors = 0,
          files = [\<lparr>fr_file = ''docs/a.pdf'', fr_success = True, fr_chars = 11, fr_words = 2,
                     fr_error = None\<rparr>,
                   \<lparr>fr_file = ''docs/sub/c.XLSX'', fr_success = True, fr_chars = 11,
                     fr_words = 2, fr_error = None\<rparr>]\<rparr> \<and>
   written (snd (extract_directory env_hello docs (Some out_root) world0)) =
     [([''out'', ''a.txt''], ''Hello world''), ([''out'', ''sub'', ''c.txt''], ''Hello world'')]"
proof -
  have h1: "TextExtractor env_demo docs (docs @ [''sub'', ''c.XLSX'']) = Inr corrupt_result"
    by code_simp
  have h2: "name [''sub'', ''c.XLSX''] \<noteq> []"
    by (simp add: name_def)
  have h3: "fst (loop_body env_demo docs (Some out_root) 2 2 (docs @ [''sub'', ''c.XLSX''])
                   \<lparr>processed = 1, errors = 0, files = []\<rparr> world0) =
     Inr \<lparr>processed = 1, errors = 1,
          files = [\<lparr>fr_file = ''docs/sub/c.XLSX'', fr_success = False, fr_chars = 0,
                    fr_words = 0, fr_error = Some ''corrupt archive''\<rparr>]\<rparr>"
    by code_simp
  have h4: "fst (extract_directory env_hello docs (Some out_root) world0) =
     Inr \<lparr>processed = 2, errors = 0,
          files = [\<lparr>fr_file = ''docs/a.pdf'', fr_success = True, fr_chars = 11, fr_words = 2,
                     fr_error = None\<rparr>,
                   \<lparr>fr_file = ''docs/sub/c.XLSX'', fr_success = True, fr_chars = 11,
                     fr_words = 2, fr_error = None\<rparr>]\<rparr>"
    by code_simp
  have h5: "truthy (r_error corrupt_result)" "written world0 = []"
    by code_simp+
  have h6: "concat (map (\<lambda>rel. case TextExtractor env_hello docs (docs @ rel) of
                              Inl e \<Rightarrow> []
                            | Inr r \<Rightarrow>
                                if \<not> truthy (r_error r) \<and> truthy (r_text r)
                                then [(out_root @ butlast rel @ [stem rel @ ''.txt''],
                                       the (r_text r))]
                                else [])
                 (filter (\<lambda>rel. rel \<noteq> [] \<and> supported rel) (scan env_hello docs))) =
     [([''out'', ''a.txt''], ''Hello world''), ([''out'', ''sub'', ''c.txt''], ''Hello world'')]"
    by code_simp
  from C7_mirrored_output_path [of env_demo docs "[''sub'', ''c.XLSX'']" corrupt_result
      out_root 2 2 "\<lparr>processed = 1, errors = 0, files = []\<rparr>" world0
      "\<lparr>processed = 1, errors = 1,
          files = [\<lparr>fr_file = ''docs/sub/c.XLSX'', fr_success = False, fr_chars = 0,
                    fr_words = 0, fr_error = Some ''corrupt archive''\<rparr>]\<rparr>"]
    h1 h2 h3 h5
  have c1: "written (snd (loop_body env_demo docs (Some out_root) 2 2
                   (docs @ [''sub'', ''c.XLSX''])
                   \<lparr>processed = 1, errors = 0, files = []\<rparr> world0)) = []"
    by simp
  from C7_mirrored_output_path [of env_hello docs "[]" hello_result out_root 0 0
      "\<lparr>processed = 0, errors = 0, files = []\<rparr>" world0
      "\<lparr>processed = 0, errors = 0, files = []\<rparr>"
      "\<lparr>processed = 2, errors = 0,
          files = [\<lparr>fr_file = ''docs/a.pdf'', fr_success = True, fr_chars = 11, fr_words = 2,
                     fr_error = None\<rparr>,
                   \<lparr>fr_file = ''docs/sub/c.XLSX'', fr_success = True, fr_chars = 11,
                     fr_words = 2, fr_error = None\<rparr>]\<rparr>"] h4 h5 h6
  have c2: "written (snd (extract_directory env_hello docs (Some out_root) world0)) =
     [([''out'', ''a.txt''], ''Hello world''), ([''out'', ''sub'', ''c.txt''], ''Hello world'')]"
    by simp
  from h1 h2 c1 h4 c2 show ?thesis by blast
qed

subsection \<open>What leaves the pipeline\<close>

text \<open>
  Claim C1, as the code has it. When the extractor returns a result, and the result
  reports an error, \<^verbatim>\<open>extract_single_file\<close> returns that result, error message
  included, and writes nothing; so does it when there is no error and nothing has to be
  written, or the directory can be made and the file written. The code catches no
  exception: one raised by the extractor, by the creation of the directory or by the
  writing of the file leaves \<^verbatim>\<open>extract_single_file\<close> as it is, and the same holds
  for an iteration of the directory walk.
\<close>

theorem C1_single_file_outcome:
  "(TextExtractor E (parent fp) fp = Inr r \<and> truthy (r_error r) \<longrightarrow>
      fst (extract_single_file E fp outp w) = Inr r \<and>
      written (snd (extract_single_file E fp outp w)) = written w) \<and>
   (TextExtractor E (parent fp) fp = Inr r \<and> (outp = None \<or> \<not> truthy (r_text r)) \<longrightarrow>
      fst (extract_single_file E fp outp w) = Inr r) \<and>
   (TextExtractor E (parent fp) fp = Inr r \<and> outp = Some out \<and>
    mkdir_raises E (parent out) = None \<and> write_raises E out = None \<longrightarrow>
      fst (extract_single_file E fp outp w) = Inr r) \<and>
   (TextExtractor E (parent fp) fp = Inl e \<longrightarrow>
      fst (extract_single_file E fp outp w) = Inl e) \<and>
   (TextExtractor E (parent fp) fp = Inr r \<and> \<not> truthy (r_error r) \<and> truthy (r_text r) \<and>
    outp = Some out \<and> mkdir_raises E (parent out) = Some e \<longrightarrow>
      fst (extract_single_file E fp outp w) = Inl e) \<and>
   (TextExtractor E (parent fp) fp = Inr r \<and> \<not> truthy (r_error r) \<and> truthy (r_text r) \<and>
    outp = Some out \<and> mkdir_raises E (parent out) = None \<and> write_raises E out = Some e \<longrightarrow>
      fst (extract_single_file E fp outp w) = Inl e) \<and>
   (TextExtractor E i fp = Inl e \<longrightarrow> fst (loop_body E i outp n idx fp res w) = Inl e) \<and>
   (TextExtractor E i fp = Inr r \<and> truthy (r_error r) \<longrightarrow>
      fst (loop_body E i outp n idx fp res w) =
        Inr (res\<lparr>errors := errors res + 1, files := files res @ [file_result_of fp r]\<rparr>))"
proof (intro conjI impI)
  assume "TextExtractor E i fp = Inl e"
  then show "fst (loop_body E i outp n idx fp res w) = Inl e"
    by (rule loop_body_raises)
next
  assume "TextExtractor E i fp = Inr r \<and> truthy (r_error r)"
  then show "fst (loop_body E i outp n idx fp res w) =
        Inr (res\<lparr>errors := errors res + 1, files := files res @ [file_result_of fp r]\<rparr>)"
    by (intro loop_body_returns_reported) simp_all
qed (auto simp add: extract_single_file_fst extract_single_file_written
       split: option.splits)

theorem C1_single_file_outcome_witness:
  "TextExtractor env_demo (parent [''docs'', ''sub'', ''c.XLSX''])
     [''docs'', ''sub'', ''c.XLSX''] = Inr corrupt_result \<and>
   truthy (r_error corrupt_result) \<and>
   fst (extract_single_file env_demo [''docs'', ''sub'', ''c.XLSX''] (Some [''c.txt''])
          world0) = Inr corrupt_result \<and>
   written (snd (extract_single_file env_demo [''docs'', ''sub'', ''c.XLSX''] (Some [''c.txt''])
                   world0)) = [] \<and>
   fst (extract_single_file env_raising [''docs'', ''a.pdf''] (Some [''a.txt'']) world0) =
     Inl (Exception ''unreadable file'') \<and>
   fst (extract_single_file env_disk_full [''docs'', ''a.pdf''] (Some [''a.txt'']) world0) =
     Inl (OSError ''No space left on device'') \<and>
   fst (extract_single_file env_demo [''docs'', ''a.pdf''] (Some [''a.txt'']) world0) =
     Inr hello_result"
proof -
  have h1: "TextExtractor env_demo (parent [''docs'', ''sub'', ''c.XLSX''])
     [''docs'', ''sub'', ''c.XLSX''] = Inr corrupt_result"
    by code_simp
  have h2: "truthy (r_error corrupt_result)" "written world0 = []"
    by code_simp+
  have h3: "TextExtractor env_raising (parent [''docs'', ''a.pdf'']) [''docs'', ''a.pdf''] =
      Inl (Exception ''unreadable file'')"
    by code_simp
  have h4: "TextExtractor env_disk_full (parent [''docs'', ''a.pdf'']) [''docs'', ''a.pdf''] =
      Inr hello_result"
    "\<not> truthy (r_error hello_result)" "truthy (r_text hello_result)"
    "mkdir_raises env_disk_full (parent [''a.txt'']) = None"
    "write_raises env_disk_full [''a.txt''] = Some (OSError ''No space left on device'')"
    by code_simp+
  have h5: "TextExtractor env_demo (parent [''docs'', ''a.pdf'']) [''docs'', ''a.pdf''] =
      Inr hello_result"
    "mkdir_raises env_demo (parent [''a.txt'']) = None"
    "write_raises env_demo [''a.txt''] = None"
    by code_simp+
  from C1_single_file_outcome [of env_demo "[''docs'', ''sub'', ''c.XLSX'']" corrupt_result
      "Some [''c.txt'']" world0] h1 h2
  have c1: "fst (extract_single_file env_demo [''docs'', ''sub'', ''c.XLSX''] (Some [''c.txt''])
          world0) = Inr corrupt_result"
    and c2: "written (snd (extract_single_file env_demo [''docs'', ''sub'', ''c.XLSX'']
          (Some [''c.txt'']) world0)) = []"
    by simp_all
  from C1_single_file_outcome [of env_raising "[''docs'', ''a.pdf'']" _
      "Some [''a.txt'']" world0 "[''a.txt'']" "Exception ''unreadable file''"] h3
  have c3: "fst (extract_single_file env_raising [''docs'', ''a.pdf''] (Some [''a.txt''])
      world0) = Inl (Exception ''unreadable file'')"
    by blast
  from C1_single_file_outcome [of env_disk_full "[''docs'', ''a.pdf'']" hello_result
      "Some [''a.txt'']" world0 "[''a.txt'']" "OSError ''No space left on device''"] h4
  have c4: "fst (extract_single_file env_disk_full [''docs'', ''a.pdf''] (Some [''a.txt''])
      world0) = Inl (OSError ''No space left on device'')"
    by blast
  from C1_single_file_outcome [of env_demo "[''docs'', ''a.pdf'']" hello_result
      "Some [''a.txt'']" world0 "[''a.txt'']"] h5
  have c5: "fst (extract_single_file env_demo [''docs'', ''a.pdf''] (Some [''a.txt''])
      world0) = Inr hello_result"
    by blast
  from h1 h2 c1 c2 c3 c4 c5 show ?thesis by blast
qed

text \<open>
  The claim as the specification states it fails: an exception raised by the extractor,
  and one raised when the output is written, both pass the boundary of
  \<^verbatim>\<open>extract_single_file\<close>; no outcome is returned.
\<close>

theorem C1_counterexample:
  "fst (extract_single_file env_raising [''docs'', ''a.pdf''] None world0) =
     Inl (Exception ''unreadable file'') \<and>
   fst (extract_single_file env_disk_full [''docs'', ''a.pdf''] (Some [''out'', ''a.txt''])
          world0) = Inl (OSError ''No space left on device'')"
  by (intro conjI) code_simp+

subsection \<open>When the text is written\<close>

text \<open>
  Claim C2, as the code has it. With an output destination, the text of a result is
  written exactly when the result reports no error and its text is present and not empty
  (and the directory can be made and the file written); the file then holds the text. A
  result whose text is missing or empty, or that reports an error, leaves no file. The same
  holds for an iteration of the directory walk, at the mirrored path.
\<close>

theorem C2_text_written_when_nonempty:
  "(TextExtractor E (parent fp) fp = Inr r \<longrightarrow>
      written (snd (extract_single_file E fp (Some out) w)) = written w @
        (if \<not> truthy (r_error r) \<and> truthy (r_text r) \<and>
            mkdir_raises E (parent out) = None \<and> write_raises E out = None
         then [(out, the (r_text r))] else [])) \<and>
   (TextExtractor E (parent fp) fp = Inl e \<longrightarrow>
      written (snd (extract_single_file E fp (Some out) w)) = written w) \<and>
   (TextExtractor E i (i @ rel) = Inr r \<and> name rel \<noteq> [] \<longrightarrow>
      written (snd (loop_body E i (Some out) n idx (i @ rel) res w)) = written w @
        (if \<not> truthy (r_error r) \<and> truthy (r_text r) \<and>
            mkdir_raises E (parent (out @ butlast rel @ [stem rel @ ''.txt''])) = None \<and>
            write_raises E (out @ butlast rel @ [stem rel @ ''.txt'']) = None
         then [(out @ butlast rel @ [stem rel @ ''.txt''], the (r_text r))] else [])) \<and>
   (truthy (r_text r) \<longleftrightarrow> (\<exists>s. r_text r = Some s \<and> s \<noteq> []))"
proof (intro conjI impI)
  assume "TextExtractor E i (i @ rel) = Inr r \<and> name rel \<noteq> []"
  then show "written (snd (loop_body E i (Some out) n idx (i @ rel) res w)) = written w @
        (if \<not> truthy (r_error r) \<and> truthy (r_text r) \<and>
            mkdir_raises E (parent (out @ butlast rel @ [stem rel @ ''.txt''])) = None \<and>
            write_raises E (out @ butlast rel @ [stem rel @ ''.txt'']) = None
         then [(out @ butlast rel @ [stem rel @ ''.txt''], the (r_text r))] else [])"
    by (intro loop_body_written_any) simp_all
next
  show "truthy (r_text r) \<longleftrightarrow> (\<exists>s. r_text r = Some s \<and> s \<noteq> [])"
    by (simp add: truthy_def split: option.splits)
qed (simp_all add: extract_single_file_written)

theorem C2_text_written_when_nonempty_witness:
  "TextExtractor env_demo (parent [''docs'', ''a.pdf'']) [''docs'', ''a.pdf''] =
     Inr hello_result \<and>
   written (snd (extract_single_file env_demo [''docs'', ''a.pdf''] (Some [''out'', ''a.txt''])
                   world0)) = [([''out'', ''a.txt''], ''Hello world'')] \<and>
   TextExtractor env_raising (parent [''docs'', ''a.pdf'']) [''docs'', ''a.pdf''] =
     Inl (Exception ''unreadable file'') \<and>
   written (snd (extract_single_file env_raising [''docs'', ''a.pdf'']
                   (Some [''out'', ''a.txt'']) world0)) = [] \<and>
   TextExtractor env_empty_text docs (docs @ [''sub'', ''c.XLSX'']) = Inr empty_result \<and>
   name [''sub'', ''c.XLSX''] \<noteq> [] \<and>
   written (snd (loop_body env_empty_text docs (Some out_root) 2 2
                   (docs @ [''sub'', ''c.XLSX''])
                   \<lparr>processed = 1, errors = 0, files = []\<rparr> world0)) = []"
proof -
  have h1: "TextExtractor env_demo (parent [''docs'', ''a.pdf'']) [''docs'', ''a.pdf''] =
     Inr hello_result"
    "\<not> truthy (r_error hello_result)" "truthy (r_text hello_result)"
    "mkdir_raises env_demo (parent [''out'', ''a.txt'']) = None"
    "write_raises env_demo [''out'', ''a.txt''] = None"
    "the (r_text hello_result) = ''Hello world''" "written world0 = []"
    by code_simp+
  have h2: "TextExtractor env_raising (parent [''docs'', ''a.pdf'']) [''docs'', ''a.pdf''] =
     Inl (Exception ''unreadable file'')"
    by code_simp
  have h3: "TextExtractor env_empty_text docs (docs @ [''sub'', ''c.XLSX'']) = Inr empty_result"
    "\<not> truthy (r_text empty_result)"
    by code_simp+
  have h4: "name [''sub'', ''c.XLSX''] \<noteq> []"
    by (simp add: name_def)
  from C2_text_written_when_nonempty [of env_demo "[''docs'', ''a.pdf'']" hello_result
      "[''out'', ''a.txt'']" world0] h1
  have c1: "written (snd (extract_single_file env_demo [''docs'', ''a.pdf'']
                   (Some [''out'', ''a.txt'']) world0)) = [([''out'', ''a.txt''], ''Hello world'')]"
    by simp
  from C2_text_written_when_nonempty [of env_raising "[''docs'', ''a.pdf'']" _
      "[''out'', ''a.txt'']" world0 "Exception ''unreadable file''"] h2 h1(7)
  have c2: "written (snd (extract_single_file env_raising [''docs'', ''a.pdf'']
                   (Some [''out'', ''a.txt'']) world0)) = []"
    by simp
  from C2_text_written_when_nonempty [of env_empty_text "[]" empty_result out_root world0
      "Exception []" docs "[''sub'', ''c.XLSX'']" 2 2
      "\<lparr>processed = 1, errors = 0, files = []\<rparr>"] h3 h4 h1(7)
  have c3: "written (snd (loop_body env_empty_text docs (Some out_root) 2 2
                   (docs @ [''sub'', ''c.XLSX''])
                   \<lparr>processed = 1, errors = 0, files = []\<rparr> world0)) = []"
    by simp
  from h1(1) c1 h2 c2 h3(1) h4 c3 show ?thesis by blast
qed

text \<open>
  The claim as the specification states it fails for the empty text: a result without
  error whose text is the empty string is returned, and no file is written, in single-file
  mode and in directory mode alike.
\<close>

theorem C2_counterexample:
  "TextExtractor env_empty_text docs [''docs'', ''a.pdf''] = Inr empty_result \<and>
   r_text empty_result = Some [] \<and> r_error empty_result = None \<and>
   fst (extract_single_file env_empty_text [''docs'', ''a.pdf''] (Some [''out'', ''a.txt''])
          world0) = Inr empty_result \<and>
   written (snd (extract_single_file env_empty_text [''docs'', ''a.pdf'']
                   (Some [''out'', ''a.txt'']) world0)) = [] \<and>
   fst (extract_directory env_empty_text docs (Some out_root) world0) =
     Inr \<lparr>processed = 2, errors = 0,
          files = [\<lparr>fr_file = ''docs/a.pdf'', fr_success = True, fr_chars = 0, fr_words = 0,
                     fr_error = None\<rparr>,
                   \<lparr>fr_file = ''docs/sub/c.XLSX'', fr_success = True, fr_chars = 0,
                     fr_words = 0, fr_error = None\<rparr>]\<rparr> \<and>
   written (snd (extract_directory env_empty_text docs (Some out_root) world0)) = []"
  by (intro conjI) code_simp+

subsection \<open>The exit status\<close>




subsection \<open>Directories among the candidates\<close>

text \<open>
  Claim C10. The selection of line 53 looks at the suffix of each entry that
  \<^verbatim>\<open>rglob\<close> yields and at nothing else: it is the same whatever the entries are
  (files or directories). So in a directory \<^verbatim>\<open>docs\<close> that holds a directory named
  \<^verbatim>\<open>reports.pdf\<close>, that directory is selected and handed to the extractor.
\<close>

theorem C10_directory_selected:
  "found_files E d =
     map (\<lambda>rel. d @ rel)
       (filter (\<lambda>rel. rel \<noteq> [] \<and> lower (suffix rel) \<in> supported_extensions) (scan E d)) \<and>
   found_files (E\<lparr>exists := x, is_file := f, is_dir := g\<rparr>) d = found_files E d \<and>
   is_dir env_dir_pdf [''docs'', ''reports.pdf''] \<and>
   \<not> is_file env_dir_pdf [''docs'', ''reports.pdf''] \<and>
   found_files env_dir_pdf docs = [[''docs'', ''reports.pdf'']] \<and>
   calls (snd (extract_directory env_dir_pdf docs None world0)) = [[''docs'', ''reports.pdf'']]"
proof (intro conjI)
  show "found_files E d =
     map (\<lambda>rel. d @ rel)
       (filter (\<lambda>rel. rel \<noteq> [] \<and> lower (suffix rel) \<in> supported_extensions) (scan E d))"
    using found_files_scan [of E d] by (simp add: supported_def)
  show "found_files (E\<lparr>exists := x, is_file := f, is_dir := g\<rparr>) d = found_files E d"
    by (simp add: found_files_def rglob_def)
qed code_simp+

subsection \<open>What is counted\<close>

text \<open>
  Claim C4 at a directory \<^verbatim>\<open>docs\<close> that holds no supported file but a directory
  named \<^verbatim>\<open>reports.pdf\<close>: no file under the root has a supported extension, and the
  report counts one entry.
\<close>

theorem C4_directory_is_counted:
  "filter (\<lambda>p. is_file env_dir_pdf p \<and> supported p) (rglob env_dir_pdf docs) = [] \<and>
   filter (\<lambda>p. is_file env_dir_pdf p) (rglob env_dir_pdf docs) =
     [[''docs'', ''reports.pdf'', ''notes.txt'']] \<and>
   fst (extract_directory env_dir_pdf docs None world0) =
     Inr \<lparr>processed = 0, errors = 1,
          files = [\<lparr>fr_file = ''docs/reports.pdf'', fr_success = False, fr_chars = 0,
                     fr_words = 0, fr_error = Some ''Is a directory''\<rparr>]\<rparr>"
  by (intro conjI) code_simp+

end
